theory Spec2Isabelle
  imports Complex_Main "HOL-Library.Sublist"
begin

section \<open>Python values and text\<close>

text \<open>
  The handler of \<^verbatim>\<open>src/github_handler.py\<close> receives a query string and an optional
  context dictionary whose values are arbitrary (\<^verbatim>\<open>Dict[str, Any]\<close>, filled from a JSON
  request body). The values are modelled by a datatype of JSON-like Python values
  (floating-point numbers are left out); a dictionary is an association list read with
  \<^const>\<open>map_of\<close>.

  Text is \<^typ>\<open>string\<close>: a list of characters with the code points 0 to 255, read as the
  first 256 code points of Unicode (Latin-1), on which \<^verbatim>\<open>str.lower\<close> and
  \<^verbatim>\<open>str.split\<close> are modelled exactly.
\<close>

datatype py_value =
    PyNone
  | PyBool bool
  | PyInt int
  | PyStr string
  | PyList "py_value list"
  | PyDict "(string \<times> py_value) list"

text \<open>Truth value testing, as \<^verbatim>\<open>not repo_info\<close> uses it.\<close>

fun truthy :: "py_value \<Rightarrow> bool" where
  "truthy PyNone = False"
| "truthy (PyBool b) = b"
| "truthy (PyInt i) = (i \<noteq> 0)"
| "truthy (PyStr s) = (s \<noteq> [])"
| "truthy (PyList xs) = (xs \<noteq> [])"
| "truthy (PyDict d) = (d \<noteq> [])"

text \<open>
  \<^verbatim>\<open>str.lower\<close> on one character: \<^verbatim>\<open>A-Z\<close> (65 to 90) and the Latin-1 capitals
  (192 to 222 without the multiplication sign 215) move up by 32; every other character
  below 256 is unchanged.
\<close>

definition lower_char :: "char \<Rightarrow> char" where
  "lower_char c =
     (let n = (of_char c :: nat)
      in if (65 \<le> n \<and> n \<le> 90) \<or> (192 \<le> n \<and> n \<le> 222 \<and> n \<noteq> 215)
         then char_of (n + 32) else c)"

definition lower :: "string \<Rightarrow> string" where
  "lower s = map lower_char s"

text \<open>
  \<^verbatim>\<open>str.isspace\<close> on one character below 256: tab to carriage return (9 to 13), the
  separators 28 to 31, the space 32, NEL 133 and the no-break space 160.
\<close>

definition is_space :: "char \<Rightarrow> bool" where
  "is_space c =
     (let n = (of_char c :: nat)
      in (9 \<le> n \<and> n \<le> 13) \<or> (28 \<le> n \<and> n \<le> 32) \<or> n = 133 \<or> n = 160)"

text \<open>
  \<^verbatim>\<open>str.split()\<close> without arguments: the maximal runs of non-whitespace characters,
  in order; no empty string is produced. The accumulator \<open>cur\<close> holds the run being read.
\<close>

fun split_acc :: "string \<Rightarrow> string \<Rightarrow> string list" where
  "split_acc cur [] = (if cur = [] then [] else [cur])"
| "split_acc cur (c # cs) =
     (if is_space c then (if cur = [] then split_acc [] cs else cur # split_acc [] cs)
      else split_acc (cur @ [c]) cs)"

definition split :: "string \<Rightarrow> string list" where
  "split s = split_acc [] s"

section \<open>Identifier extraction\<close>

text \<open>
  The pattern \<^verbatim>\<open>([a-zA-Z0-9-]+/[a-zA-Z0-9-_.]+)\<close>. In both classes the hyphen after
  \<^verbatim>\<open>0-9\<close> is a literal hyphen, so the first class is the ASCII letters, digits and
  \<^verbatim>\<open>-\<close>, and the second adds \<^verbatim>\<open>_\<close> and \<^verbatim>\<open>.\<close>.
\<close>

definition owner_char :: "char \<Rightarrow> bool" where
  "owner_char c =
     (let n = (of_char c :: nat)
      in (97 \<le> n \<and> n \<le> 122) \<or> (65 \<le> n \<and> n \<le> 90) \<or> (48 \<le> n \<and> n \<le> 57)
         \<or> c = CHR ''-'')"

definition repo_char :: "char \<Rightarrow> bool" where
  "repo_char c = (owner_char c \<or> c = CHR ''_'' \<or> c = CHR ''.'')"

text \<open>
  A match of the pattern at the very start of \<open>s\<close>. The first \<^verbatim>\<open>+\<close> is greedy and
  takes the whole run of owner characters; giving characters back cannot help, because
  the next character would then be an owner character and not the slash. The second
  \<^verbatim>\<open>+\<close> takes the whole run of repository characters, which must not be empty.
\<close>

definition match_repo_pattern :: "string \<Rightarrow> string option" where
  "match_repo_pattern s =
     (let owner = takeWhile owner_char s; rest = dropWhile owner_char s
      in case rest of
           [] \<Rightarrow> None
         | c # after \<Rightarrow>
             (let repo = takeWhile repo_char after
              in if owner \<noteq> [] \<and> c = CHR ''/'' \<and> repo \<noteq> []
                 then Some (owner @ CHR ''/'' # repo) else None))"

text \<open>\<^verbatim>\<open>re.search\<close>: the match at the leftmost start position that has one.\<close>

fun search_repo_pattern :: "string \<Rightarrow> string option" where
  "search_repo_pattern [] = None"
| "search_repo_pattern (c # cs) =
     (case match_repo_pattern (c # cs) of
        Some m \<Rightarrow> Some m
      | None \<Rightarrow> search_repo_pattern cs)"

text \<open>
  \<^verbatim>\<open>_extract_repo_info\<close>. The context is \<^verbatim>\<open>None\<close> or a dictionary; the test
  \<^verbatim>\<open>context and "repository" in context\<close> needs a non-empty dictionary holding the
  key. The result is the context's value whatever it is, the matched text, or
  \<^verbatim>\<open>None\<close>.
\<close>

definition extract_repo_info :: "string \<Rightarrow> (string \<times> py_value) list option \<Rightarrow> py_value" where
  "extract_repo_info query context =
     (case (case context of
              None \<Rightarrow> None
            | Some d \<Rightarrow> if d \<noteq> [] then map_of d ''repository'' else None) of
        Some v \<Rightarrow> v
      | None \<Rightarrow>
          (case search_repo_pattern query of
             Some m \<Rightarrow> PyStr m
           | None \<Rightarrow> PyNone))"

section \<open>The provider's objects\<close>

text \<open>
  The repository and file objects come from the provider's client library, which is not
  part of the repository; the handler reads them through the attributes below. The
  fields carry a prefix where the attribute names of the two objects coincide:
  \<^verbatim>\<open>repo.name\<close> is \<open>repo_name\<close>, \<^verbatim>\<open>file.name\<close> is \<open>file_name\<close>, and so on.
\<close>

record repository =
  repo_name :: string
  repo_description :: "string option"
  repo_stargazers_count :: int
  repo_forks_count :: int
  repo_language :: "string option"
  repo_html_url :: string

record content_file =
  file_name :: string
  file_path :: string
  file_html_url :: string
  file_size :: int

text \<open>
  What the handler asks of the provider, as parameters of the model. An operation that
  raises returns \<open>Inl m\<close>, where \<open>m\<close> is the text \<^verbatim>\<open>str(e)\<close> of the exception.
  \<^item> \<open>get_repo\<close>: \<^verbatim>\<open>self.github.get_repo(repo_info)\<close>, on whatever value was extracted;
  \<^item> \<open>get_contents\<close>: \<^verbatim>\<open>repo.get_contents("")\<close>;
  \<^item> \<open>decoded_content\<close>: \<^verbatim>\<open>file.decoded_content.decode('utf-8')\<close>, the fetch and
    the decoding of one file's text;
  \<^item> \<open>file_eq\<close> and \<open>file_lt\<close>: \<^verbatim>\<open>==\<close> and \<^verbatim>\<open><\<close> between two file objects,
    which the sort of the ranker reaches when two scores are equal. A class that
    defines no ordering raises \<^verbatim>\<open>TypeError\<close> on \<^verbatim>\<open><\<close>;
  \<^item> \<open>utcnow k\<close>: the text of \<^verbatim>\<open>datetime.now(timezone.utc).isoformat()\<close> at the
    \<open>k\<close>-th reading of the clock during one resolution, counted from 0.
\<close>

record provider =
  get_repo :: "py_value \<Rightarrow> string + repository"
  get_contents :: "repository \<Rightarrow> string + content_file list"
  decoded_content :: "content_file \<Rightarrow> string + string"
  file_eq :: "content_file \<Rightarrow> content_file \<Rightarrow> bool"
  file_lt :: "content_file \<Rightarrow> content_file \<Rightarrow> string + bool"
  utcnow :: "nat \<Rightarrow> string"

section \<open>Relevance ranking\<close>

definition bonus_suffixes :: "string list" where
  "bonus_suffixes = [''.md'', ''.txt'', ''.py'', ''.js'', ''.java'']"

text \<open>\<^verbatim>\<open>s.endswith(tuple)\<close>: some member of the tuple is a suffix of \<open>s\<close>.\<close>

definition endswith :: "string \<Rightarrow> string list \<Rightarrow> bool" where
  "endswith s sufs = list_ex (\<lambda>suf. suffix suf s) sufs"

text \<open>
  The body of the loop over the files in \<^verbatim>\<open>_filter_relevant_files\<close>: the score of one
  file. \<^verbatim>\<open>term in filename\<close> is the substring test \<^const>\<open>sublist\<close>. Both the term
  matches and the suffix test read \<^verbatim>\<open>filename\<close>, the lower-cased name. The score
  is an integer count plus possibly one half, which Python's numbers represent
  exactly; it is a rational here.
\<close>

definition score_file :: "string list \<Rightarrow> content_file \<Rightarrow> rat" where
  "score_file query_terms file =
     (let filename = lower (file_name file);
          score = fold (\<lambda>term score. if sublist term filename then score + 1 else score)
                    query_terms 0
      in if endswith filename bonus_suffixes then score + 1 / 2 else score)"

text \<open>The list \<^verbatim>\<open>scored_files\<close> when the loop has ended.\<close>

definition scored_files :: "content_file list \<Rightarrow> string \<Rightarrow> (rat \<times> content_file) list" where
  "scored_files files query =
     (let query_terms = split (lower query)
      in filter (\<lambda>(score, file). score > 0)
           (map (\<lambda>file. (score_file query_terms file, file)) files))"

text \<open>
  \<^verbatim>\<open>sorted(scored_files, reverse=True)\<close> has no key: it compares the pairs
  \<^verbatim>\<open>(score, file)\<close> themselves. Python compares tuples by their first components
  that are not \<^verbatim>\<open>==\<close>: different scores decide; with equal scores and equal files
  the pairs are equal, so neither is less; with equal scores and different files the
  answer is \<^verbatim>\<open>file < file\<close>, which may raise.
\<close>

definition tuple_lt ::
  "provider \<Rightarrow> rat \<times> content_file \<Rightarrow> rat \<times> content_file \<Rightarrow> string + bool" where
  "tuple_lt P a b =
     (if fst a \<noteq> fst b then Inr (fst a < fst b)
      else if file_eq P (snd a) (snd b) then Inr False
      else file_lt P (snd a) (snd b))"

text \<open>
  The sort is stable, asks only \<^verbatim>\<open><\<close>, and lets an exception of the comparison
  escape. Each element \<open>pivot\<close> in turn goes into the sorted prefix behind every element
  that it is not less than. With \<^verbatim>\<open>reverse=True\<close> the list is reversed, sorted
  upwards and reversed again.
\<close>

fun insert_pivot :: "('a \<Rightarrow> 'a \<Rightarrow> string + bool) \<Rightarrow> 'a \<Rightarrow> 'a list \<Rightarrow> string + 'a list" where
  "insert_pivot lt pivot [] = Inr [pivot]"
| "insert_pivot lt pivot (p # ps) =
     (case lt pivot p of
        Inl e \<Rightarrow> Inl e
      | Inr True \<Rightarrow> Inr (pivot # p # ps)
      | Inr False \<Rightarrow>
          (case insert_pivot lt pivot ps of
             Inl e \<Rightarrow> Inl e
           | Inr qs \<Rightarrow> Inr (p # qs)))"

fun sort_into :: "('a \<Rightarrow> 'a \<Rightarrow> string + bool) \<Rightarrow> 'a list \<Rightarrow> 'a list \<Rightarrow> string + 'a list" where
  "sort_into lt placed [] = Inr placed"
| "sort_into lt placed (x # xs) =
     (case insert_pivot lt x placed of
        Inl e \<Rightarrow> Inl e
      | Inr placed' \<Rightarrow> sort_into lt placed' xs)"

definition sorted_reverse :: "('a \<Rightarrow> 'a \<Rightarrow> string + bool) \<Rightarrow> 'a list \<Rightarrow> string + 'a list" where
  "sorted_reverse lt xs =
     (case sort_into lt [] (rev xs) of
        Inl e \<Rightarrow> Inl e
      | Inr ys \<Rightarrow> Inr (rev ys))"

text \<open>\<^verbatim>\<open>_filter_relevant_files\<close>: the files of the sorted pairs, or the exception.\<close>

definition filter_relevant_files ::
  "provider \<Rightarrow> content_file list \<Rightarrow> string \<Rightarrow> string + content_file list" where
  "filter_relevant_files P files query =
     (case sorted_reverse (tuple_lt P) (scored_files files query) of
        Inl e \<Rightarrow> Inl e
      | Inr pairs \<Rightarrow> Inr (map snd pairs))"

section \<open>Query resolution\<close>

text \<open>
  The items of the response. Each is a dictionary with the keys \<^verbatim>\<open>type\<close>,
  \<^verbatim>\<open>content\<close> and \<^verbatim>\<open>metadata\<close>; the constructor is the value of \<^verbatim>\<open>type\<close>.
\<close>

record metadata =
  source :: string
  timestamp :: string

record info_content =
  info_name :: string
  info_description :: "string option"
  info_stars :: int
  info_forks :: int
  info_language :: "string option"
  info_url :: string

record file_content =
  fc_name :: string
  fc_path :: string
  fc_url :: string
  fc_content :: string

datatype content_item =
    RepositoryInfo info_content metadata
  | FileContent file_content metadata
  | ErrorItem string metadata

fun item_type :: "content_item \<Rightarrow> string" where
  "item_type (RepositoryInfo c m) = ''repository_info''"
| "item_type (FileContent c m) = ''file_content''"
| "item_type (ErrorItem c m) = ''error''"

text \<open>The two dictionary displays of \<^verbatim>\<open>process_query\<close>.\<close>

definition repository_info_item :: "repository \<Rightarrow> metadata \<Rightarrow> content_item" where
  "repository_info_item repo md =
     RepositoryInfo
       \<lparr>info_name = repo_name repo,
        info_description = repo_description repo,
        info_stars = repo_stargazers_count repo,
        info_forks = repo_forks_count repo,
        info_language = repo_language repo,
        info_url = repo_html_url repo\<rparr> md"

definition file_content_item :: "content_file \<Rightarrow> string \<Rightarrow> metadata \<Rightarrow> content_item" where
  "file_content_item file text md =
     FileContent
       \<lparr>fc_name = file_name file, fc_path = file_path file,
        fc_url = file_html_url file, fc_content = text\<rparr> md"

text \<open>
  One resolution runs against a \<open>world\<close> that records what it did to the outside: the
  calls made to the provider, in order, and how often the clock was read.
\<close>

datatype call =
    GetRepo py_value
  | GetContents repository
  | DecodedContent content_file

record world =
  calls :: "call list"
  clock_reads :: nat

definition fresh :: world where
  "fresh = \<lparr>calls = [], clock_reads = 0\<rparr>"

definition record_call :: "call \<Rightarrow> world \<Rightarrow> world" where
  "record_call c w = w\<lparr>calls := calls w @ [c]\<rparr>"

text \<open>The \<^verbatim>\<open>metadata\<close> block, which reads the clock.\<close>

definition now_metadata :: "provider \<Rightarrow> world \<Rightarrow> metadata \<times> world" where
  "now_metadata P w =
     (\<lparr>source = ''github'', timestamp = utcnow P (clock_reads w)\<rparr>,
      w\<lparr>clock_reads := Suc (clock_reads w)\<rparr>)"

text \<open>\<^verbatim>\<open>_create_error_response\<close>.\<close>

definition create_error_response ::
  "provider \<Rightarrow> string \<Rightarrow> world \<Rightarrow> content_item list \<times> world" where
  "create_error_response P error_message w =
     (case now_metadata P w of (md, w') \<Rightarrow> ([ErrorItem error_message md], w'))"

text \<open>
  The loop \<^verbatim>\<open>for file in relevant_files[:5]\<close> on the files still to visit. The
  conditional expression tests the size first and reads \<^verbatim>\<open>decoded_content\<close> only
  below 100000; the clock is read after the content. An exception leaves the loop.
\<close>

fun append_file_items ::
  "provider \<Rightarrow> content_file list \<Rightarrow> content_item list \<Rightarrow> world
     \<Rightarrow> (string + content_item list) \<times> world" where
  "append_file_items P [] content w = (Inr content, w)"
| "append_file_items P (file # files) content w =
     (if file_size file < 100000 then
        (case decoded_content P file of
           Inl e \<Rightarrow> (Inl e, record_call (DecodedContent file) w)
         | Inr text \<Rightarrow>
             (case now_metadata P (record_call (DecodedContent file) w) of
                (md, w') \<Rightarrow>
                  append_file_items P files (content @ [file_content_item file text md]) w'))
      else
        (case now_metadata P w of
           (md, w') \<Rightarrow>
             append_file_items P files
               (content @ [file_content_item file ''File too large'' md]) w'))"

text \<open>
  The body of the \<^verbatim>\<open>try\<close> block of \<^verbatim>\<open>process_query\<close>: \<open>Inr\<close> is the returned list,
  \<open>Inl m\<close> an exception with text \<open>m\<close>.
\<close>

definition process_query_try ::
  "provider \<Rightarrow> string \<Rightarrow> (string \<times> py_value) list option \<Rightarrow> world
     \<Rightarrow> (string + content_item list) \<times> world" where
  "process_query_try P query context w =
     (let repo_info = extract_repo_info query context
      in if \<not> truthy repo_info then
           (case create_error_response P ''No repository information found in query'' w of
              (items, w') \<Rightarrow> (Inr items, w'))
         else
           (case get_repo P repo_info of
              Inl e \<Rightarrow> (Inl e, record_call (GetRepo repo_info) w)
            | Inr repo \<Rightarrow>
                (case now_metadata P (record_call (GetRepo repo_info) w) of
                   (md, w1) \<Rightarrow>
                     (let content = [repository_info_item repo md]
                      in case get_contents P repo of
                           Inl e \<Rightarrow> (Inl e, record_call (GetContents repo) w1)
                         | Inr search_results \<Rightarrow>
                             (case filter_relevant_files P search_results query of
                                Inl e \<Rightarrow> (Inl e, record_call (GetContents repo) w1)
                              | Inr relevant_files \<Rightarrow>
                                  append_file_items P (take 5 relevant_files) content
                                    (record_call (GetContents repo) w1))))))"

text \<open>
  \<^verbatim>\<open>process_query\<close>: the \<^verbatim>\<open>try\<close> block and its handler
  \<^verbatim>\<open>except Exception as e\<close>, started in a fresh world. The result is the returned list
  together with the world afterwards.
\<close>

definition process_query ::
  "provider \<Rightarrow> string \<Rightarrow> (string \<times> py_value) list option \<Rightarrow> content_item list \<times> world" where
  "process_query P query context =
     (case process_query_try P query context fresh of
        (Inl e, w) \<Rightarrow> create_error_response P e w
      | (Inr content, w) \<Rightarrow> (content, w))"

text \<open>The \<^verbatim>\<open>content\<close> of an item of type \<^verbatim>\<open>error\<close>: the message.\<close>

fun error_content :: "content_item \<Rightarrow> string option" where
  "error_content (ErrorItem m md) = Some m"
| "error_content (RepositoryInfo c md) = None"
| "error_content (FileContent c md) = None"

text \<open>What a call did when it was made: the text of its exception, if it raised.\<close>

fun raised :: "provider \<Rightarrow> call \<Rightarrow> string option" where
  "raised P (GetRepo v) = (case get_repo P v of Inl m \<Rightarrow> Some m | Inr r \<Rightarrow> None)"
| "raised P (GetContents r) = (case get_contents P r of Inl m \<Rightarrow> Some m | Inr fs \<Rightarrow> None)"
| "raised P (DecodedContent f) = (case decoded_content P f of Inl m \<Rightarrow> Some m | Inr t \<Rightarrow> None)"

text \<open>
  The \<^verbatim>\<open>content\<close> of the item that the loop builds for a file: name, path and URL of
  the file, with the placeholder or the decoded text.
\<close>

definition item_of :: "provider \<Rightarrow> content_file \<Rightarrow> content_item \<Rightarrow> bool" where
  "item_of P file item =
     (case item of
        FileContent c md \<Rightarrow>
          fc_name c = file_name file \<and> fc_path c = file_path file
          \<and> fc_url c = file_html_url file
          \<and> (if file_size file < 100000 then decoded_content P file = Inr (fc_content c)
              else fc_content c = ''File too large'')
      | _ \<Rightarrow> False)"

section \<open>A concrete repository\<close>

text \<open>
  The repository of the example in the specification, with a provider that knows only
  this repository. Its file objects are equal when their URLs are and have no ordering,
  as objects of a class without \<^verbatim>\<open>__lt__\<close>.
\<close>

definition hello_world :: repository where
  "hello_world =
     \<lparr>repo_name = ''Hello-World'', repo_description = Some ''My first repository on GitHub!'',
      repo_stargazers_count = 2500, repo_forks_count = 1800, repo_language = None,
      repo_html_url = ''https://github.com/octocat/Hello-World''\<rparr>"

definition readme_md :: content_file where
  "readme_md =
     \<lparr>file_name = ''README.md'', file_path = ''README.md'',
      file_html_url = ''https://github.com/octocat/Hello-World/blob/master/README.md'',
      file_size = 13\<rparr>"

definition src_dir :: content_file where
  "src_dir =
     \<lparr>file_name = ''src'', file_path = ''src'',
      file_html_url = ''https://github.com/octocat/Hello-World/tree/master/src'',
      file_size = 0\<rparr>"

definition license_txt :: content_file where
  "license_txt =
     \<lparr>file_name = ''LICENSE.txt'', file_path = ''LICENSE.txt'',
      file_html_url = ''https://github.com/octocat/Hello-World/blob/master/LICENSE.txt'',
      file_size = 100000\<rparr>"

definition changelog_md :: content_file where
  "changelog_md =
     \<lparr>file_name = ''CHANGELOG.md'', file_path = ''CHANGELOG.md'',
      file_html_url = ''https://github.com/octocat/Hello-World/blob/master/CHANGELOG.md'',
      file_size = 99999\<rparr>"

definition readme_upper :: content_file where
  "readme_upper =
     \<lparr>file_name = ''README.MD'', file_path = ''README.MD'',
      file_html_url = ''https://github.com/octocat/Hello-World/blob/master/README.MD'',
      file_size = 13\<rparr>"

text \<open>
  The text of the \<^verbatim>\<open>TypeError\<close> that \<^verbatim>\<open><\<close> raises between two objects of a class
  named \<^verbatim>\<open>ContentFile\<close> that defines no ordering. The text quotes the operator and
  the class names with the apostrophe, character 39.
\<close>

definition quoted :: "string \<Rightarrow> string" where
  "quoted s = char_of (39 :: nat) # s @ [char_of (39 :: nat)]"

definition no_ordering :: string where
  "no_ordering =
     quoted ''<'' @ '' not supported between instances of '' @ quoted ''ContentFile''
       @ '' and '' @ quoted ''ContentFile''"

definition octocat :: provider where
  "octocat =
     \<lparr>get_repo = (\<lambda>v. if v = PyStr ''octocat/Hello-World'' then Inr hello_world
                      else Inl ''404 Not Found''),
      get_contents = (\<lambda>r. Inr [readme_md, src_dir, license_txt]),
      decoded_content = (\<lambda>f. if file_name f = ''README.md'' then Inr ''Hello World!''
                             else Inl ''unsupported encoding: none''),
      file_eq = (\<lambda>a b. file_html_url a = file_html_url b),
      file_lt = (\<lambda>a b. Inl no_ordering),
      utcnow = (\<lambda>k. if k = 0 then ''2024-05-01T12:00:00.000100+00:00''
                     else ''2024-05-01T12:00:00.000200+00:00'')\<rparr>"

text \<open>The same repository when no file content can be decoded.\<close>

definition undecodable :: provider where
  "undecodable =
     octocat\<lparr>get_contents := (\<lambda>r. Inr [readme_md, src_dir, changelog_md]),
             decoded_content := (\<lambda>f. Inl ''invalid start byte'')\<rparr>"

text \<open>The same repository when the file objects are ordered by their size.\<close>

definition ordered_by_size :: provider where
  "ordered_by_size = octocat\<lparr>file_lt := (\<lambda>a b. Inr (file_size a < file_size b))\<rparr>"

definition example_query :: string where
  "example_query = ''Show me README in octocat/Hello-World''"

section \<open>Notation for the proofs\<close>

text \<open>
  The metadata block built in a world, the world after one round of the loop that fetched
  a file or skipped the fetch, and the world when the listing has arrived.
\<close>

definition stamp :: "provider \<Rightarrow> world \<Rightarrow> metadata" where
  "stamp P w = \<lparr>source = ''github'', timestamp = utcnow P (clock_reads w)\<rparr>"

definition after_fetch :: "content_file \<Rightarrow> world \<Rightarrow> world" where
  "after_fetch f w = w\<lparr>calls := calls w @ [DecodedContent f], clock_reads := Suc (clock_reads w)\<rparr>"

definition after_skip :: "world \<Rightarrow> world" where
  "after_skip w = w\<lparr>clock_reads := Suc (clock_reads w)\<rparr>"

definition listed :: "py_value \<Rightarrow> repository \<Rightarrow> world" where
  "listed v repo = \<lparr>calls = [GetRepo v, GetContents repo], clock_reads = 1\<rparr>"

text \<open>A list of scored files in which the scores never go down.\<close>

definition by_score :: "(rat \<times> content_file) list \<Rightarrow> bool" where
  "by_score ps = sorted_wrt (\<lambda>a b. fst a \<le> fst b) ps"

section \<open>Lemmas\<close>

subsection \<open>The clock and the error response\<close>

lemma now_metadata_eq:
  "now_metadata P w =
     (\<lparr>source = ''github'', timestamp = utcnow P (clock_reads w)\<rparr>,
      w\<lparr>clock_reads := Suc (clock_reads w)\<rparr>)"
  by (simp add: now_metadata_def)

lemma create_error_response_eq:
  "create_error_response P m w =
     ([ErrorItem m \<lparr>source = ''github'', timestamp = utcnow P (clock_reads w)\<rparr>],
      w\<lparr>clock_reads := Suc (clock_reads w)\<rparr>)"
  by (simp add: create_error_response_def now_metadata_def)

subsection \<open>The loop over the selected files\<close>

lemma calls_after_fetch: "calls (after_fetch f w) = calls w @ [DecodedContent f]"
  by (simp add: after_fetch_def)

lemma calls_after_skip: "calls (after_skip w) = calls w"
  by (simp add: after_skip_def)

lemma append_file_items_Cons_small:
  assumes "file_size f < 100000" and "decoded_content P f = Inr t"
  shows "append_file_items P (f # fs) content w =
         append_file_items P fs (content @ [file_content_item f t (stamp P w)]) (after_fetch f w)"
  using assms by (simp add: now_metadata_eq record_call_def stamp_def after_fetch_def)

lemma append_file_items_Cons_fail:
  assumes "file_size f < 100000" and "decoded_content P f = Inl e"
  shows "append_file_items P (f # fs) content w =
         (Inl e, w\<lparr>calls := calls w @ [DecodedContent f]\<rparr>)"
  using assms by (simp add: record_call_def)

lemma append_file_items_Cons_large:
  assumes "\<not> file_size f < 100000"
  shows "append_file_items P (f # fs) content w =
         append_file_items P fs
           (content @ [file_content_item f ''File too large'' (stamp P w)]) (after_skip w)"
  using assms by (simp add: now_metadata_eq stamp_def after_skip_def)

lemma file_cases:
  fixes f :: content_file and P :: provider
  obtains (small) t where "file_size f < 100000" "decoded_content P f = Inr t"
  | (fail) e where "file_size f < 100000" "decoded_content P f = Inl e"
  | (large) "\<not> file_size f < 100000"
  by (cases "file_size f < 100000"; cases "decoded_content P f") auto

lemma item_type_file_content_item [simp]:
  "item_type (file_content_item f t md) = ''file_content''"
  by (simp add: file_content_item_def)

lemma append_file_items_types:
  "append_file_items P fs content w = (Inr out, w') \<Longrightarrow>
   map item_type out = map item_type content @ replicate (length fs) ''file_content''"
proof (induction fs arbitrary: content w)
  case Nil
  then show ?case by simp
next
  case (Cons f fs)
  show ?case
  proof (cases rule: file_cases [of f P])
    case (small t)
    from Cons.prems have "append_file_items P fs
        (content @ [file_content_item f t (stamp P w)]) (after_fetch f w) = (Inr out, w')"
      unfolding append_file_items_Cons_small [OF small] .
    from Cons.IH [OF this] show ?thesis
      by (simp add: replicate_append_same)
  next
    case (fail e)
    from Cons.prems show ?thesis
      unfolding append_file_items_Cons_fail [OF fail] by simp
  next
    case large
    from Cons.prems have "append_file_items P fs
        (content @ [file_content_item f ''File too large'' (stamp P w)]) (after_skip w) = (Inr out, w')"
      unfolding append_file_items_Cons_large [OF large] .
    from Cons.IH [OF this] show ?thesis
      by (simp add: replicate_append_same)
  qed
qed

lemma append_file_items_raised:
  "\<forall>c\<in>set (calls w). raised P c = None \<Longrightarrow>
   append_file_items P fs content w = (r, w') \<Longrightarrow>
   c \<in> set (calls w') \<Longrightarrow> raised P c = Some m \<Longrightarrow> r = Inl m"
proof (induction fs arbitrary: content w)
  case Nil
  then show ?case by auto
next
  case (Cons f fs)
  show ?case
  proof (cases rule: file_cases [of f P])
    case (small t)
    from small Cons.prems(1) have "\<forall>c\<in>set (calls (after_fetch f w)). raised P c = None"
      by (simp add: calls_after_fetch)
    moreover from Cons.prems(2) have "append_file_items P fs
        (content @ [file_content_item f t (stamp P w)]) (after_fetch f w) = (r, w')"
      unfolding append_file_items_Cons_small [OF small] .
    ultimately show ?thesis using Cons.IH Cons.prems(3,4) by blast
  next
    case (fail e)
    from Cons.prems(2) have "r = Inl e" "calls w' = calls w @ [DecodedContent f]"
      unfolding append_file_items_Cons_fail [OF fail] by auto
    with Cons.prems(1,3,4) fail show ?thesis by auto
  next
    case large
    from Cons.prems(1) have "\<forall>c\<in>set (calls (after_skip w)). raised P c = None"
      by (simp add: calls_after_skip)
    moreover from Cons.prems(2) have "append_file_items P fs
        (content @ [file_content_item f ''File too large'' (stamp P w)]) (after_skip w) = (r, w')"
      unfolding append_file_items_Cons_large [OF large] .
    ultimately show ?thesis using Cons.IH Cons.prems(3,4) by blast
  qed
qed

lemma append_file_items_calls_mono:
  "append_file_items P fs content w = (r, w') \<Longrightarrow> set (calls w) \<subseteq> set (calls w')"
proof (induction fs arbitrary: content w)
  case Nil
  then show ?case by auto
next
  case (Cons f fs)
  show ?case
  proof (cases rule: file_cases [of f P])
    case (small t)
    from Cons.prems have "append_file_items P fs
        (content @ [file_content_item f t (stamp P w)]) (after_fetch f w) = (r, w')"
      unfolding append_file_items_Cons_small [OF small] .
    from Cons.IH [OF this] show ?thesis by (auto simp: calls_after_fetch)
  next
    case (fail e)
    from Cons.prems show ?thesis
      unfolding append_file_items_Cons_fail [OF fail] by auto
  next
    case large
    from Cons.prems have "append_file_items P fs
        (content @ [file_content_item f ''File too large'' (stamp P w)]) (after_skip w) = (r, w')"
      unfolding append_file_items_Cons_large [OF large] .
    from Cons.IH [OF this] show ?thesis by (auto simp: calls_after_skip)
  qed
qed

lemma append_file_items_fetched:
  "append_file_items P fs content w = (r, w') \<Longrightarrow>
   DecodedContent g \<in> set (calls w') \<Longrightarrow>
   DecodedContent g \<in> set (calls w) \<or> (g \<in> set fs \<and> file_size g < 100000)"
proof (induction fs arbitrary: content w)
  case Nil
  then show ?case by auto
next
  case (Cons f fs)
  show ?case
  proof (cases rule: file_cases [of f P])
    case (small t)
    from Cons.prems(1) have "append_file_items P fs
        (content @ [file_content_item f t (stamp P w)]) (after_fetch f w) = (r, w')"
      unfolding append_file_items_Cons_small [OF small] .
    from Cons.IH [OF this Cons.prems(2)] small show ?thesis
      by (auto simp: calls_after_fetch)
  next
    case (fail e)
    from Cons.prems(1) have "calls w' = calls w @ [DecodedContent f]"
      unfolding append_file_items_Cons_fail [OF fail] by auto
    with Cons.prems(2) fail show ?thesis by auto
  next
    case large
    from Cons.prems(1) have "append_file_items P fs
        (content @ [file_content_item f ''File too large'' (stamp P w)]) (after_skip w) = (r, w')"
      unfolding append_file_items_Cons_large [OF large] .
    from Cons.IH [OF this Cons.prems(2)] show ?thesis
      by (auto simp: calls_after_skip)
  qed
qed

lemma append_file_items_attempted:
  "append_file_items P fs content w = (r, w') \<Longrightarrow>
   i < length fs \<Longrightarrow> file_size (fs ! i) < 100000 \<Longrightarrow>
   (\<forall>j<i. file_size (fs ! j) < 100000 \<longrightarrow> (\<exists>t. decoded_content P (fs ! j) = Inr t)) \<Longrightarrow>
   DecodedContent (fs ! i) \<in> set (calls w')"
proof (induction fs arbitrary: content w i)
  case Nil
  then show ?case by simp
next
  case (Cons f fs)
  show ?case
  proof (cases i)
    case 0
    with Cons.prems(3) have s: "file_size f < 100000" by simp
    show ?thesis
    proof (cases "decoded_content P f")
      case (Inl e)
      from Cons.prems(1) have "calls w' = calls w @ [DecodedContent f]"
        unfolding append_file_items_Cons_fail [OF s Inl] by auto
      with 0 show ?thesis by simp
    next
      case (Inr t)
      from Cons.prems(1) have "append_file_items P fs
          (content @ [file_content_item f t (stamp P w)]) (after_fetch f w) = (r, w')"
        unfolding append_file_items_Cons_small [OF s Inr] .
      from append_file_items_calls_mono [OF this] 0 show ?thesis
        by (auto simp: calls_after_fetch)
    qed
  next
    case (Suc k)
    from Cons.prems(2,3,4) Suc have k: "k < length fs" "file_size (fs ! k) < 100000"
      "\<forall>j<k. file_size (fs ! j) < 100000 \<longrightarrow> (\<exists>t. decoded_content P (fs ! j) = Inr t)"
      by auto
    from Cons.prems(4) Suc have f0: "file_size f < 100000 \<longrightarrow> (\<exists>t. decoded_content P f = Inr t)"
      by auto
    show ?thesis
    proof (cases rule: file_cases [of f P])
      case (small t)
      from Cons.prems(1) have "append_file_items P fs
          (content @ [file_content_item f t (stamp P w)]) (after_fetch f w) = (r, w')"
        unfolding append_file_items_Cons_small [OF small] .
      from Cons.IH [OF this k] Suc show ?thesis by simp
    next
      case (fail e)
      with f0 show ?thesis by simp
    next
      case large
      from Cons.prems(1) have "append_file_items P fs
          (content @ [file_content_item f ''File too large'' (stamp P w)]) (after_skip w) = (r, w')"
        unfolding append_file_items_Cons_large [OF large] .
      from Cons.IH [OF this k] Suc show ?thesis by simp
    qed
  qed
qed

lemma item_of_small:
  "file_size f < 100000 \<Longrightarrow> decoded_content P f = Inr t \<Longrightarrow> item_of P f (file_content_item f t md)"
  by (simp add: item_of_def file_content_item_def)

lemma item_of_large:
  "\<not> file_size f < 100000 \<Longrightarrow> item_of P f (file_content_item f ''File too large'' md)"
  by (simp add: item_of_def file_content_item_def)

lemma append_file_items_items:
  "append_file_items P fs content w = (Inr out, w') \<Longrightarrow>
   \<exists>items. out = content @ items \<and> list_all2 (item_of P) fs items"
proof (induction fs arbitrary: content w)
  case Nil
  then show ?case by simp
next
  case (Cons f fs)
  show ?case
  proof (cases rule: file_cases [of f P])
    case (small t)
    let ?it = "file_content_item f t (stamp P w)"
    from Cons.prems have "append_file_items P fs (content @ [?it]) (after_fetch f w) = (Inr out, w')"
      unfolding append_file_items_Cons_small [OF small] .
    from Cons.IH [OF this] obtain items where
      "out = (content @ [?it]) @ items" "list_all2 (item_of P) fs items" by blast
    with item_of_small [OF small] have
      "out = content @ (?it # items) \<and> list_all2 (item_of P) (f # fs) (?it # items)"
      by simp
    then show ?thesis by blast
  next
    case (fail e)
    from Cons.prems show ?thesis
      unfolding append_file_items_Cons_fail [OF fail] by simp
  next
    case large
    let ?it = "file_content_item f ''File too large'' (stamp P w)"
    from Cons.prems have "append_file_items P fs (content @ [?it]) (after_skip w) = (Inr out, w')"
      unfolding append_file_items_Cons_large [OF large] .
    from Cons.IH [OF this] obtain items where
      "out = (content @ [?it]) @ items" "list_all2 (item_of P) fs items" by blast
    with item_of_large [OF large] have
      "out = content @ (?it # items) \<and> list_all2 (item_of P) (f # fs) (?it # items)"
      by simp
    then show ?thesis by blast
  qed
qed

subsection \<open>The stages of a resolution\<close>

lemma process_query_no_identifier:
  assumes "\<not> truthy (extract_repo_info query context)"
  shows "process_query P query context =
         ([ErrorItem ''No repository information found in query'' (stamp P fresh)],
          \<lparr>calls = [], clock_reads = 1\<rparr>)"
  using assms
  by (simp add: process_query_def process_query_try_def create_error_response_eq
      stamp_def fresh_def)

lemma process_query_get_repo_fails:
  assumes "truthy (extract_repo_info query context)"
    and "get_repo P (extract_repo_info query context) = Inl e"
  shows "process_query P query context =
         ([ErrorItem e (stamp P fresh)],
          \<lparr>calls = [GetRepo (extract_repo_info query context)], clock_reads = 1\<rparr>)"
  using assms
  by (simp add: process_query_def process_query_try_def create_error_response_eq
      stamp_def fresh_def record_call_def)

lemma process_query_get_contents_fails:
  assumes "truthy (extract_repo_info query context)"
    and "get_repo P (extract_repo_info query context) = Inr repo"
    and "get_contents P repo = Inl e"
  shows "process_query P query context =
         ([ErrorItem e (stamp P (listed (extract_repo_info query context) repo))],
          \<lparr>calls = [GetRepo (extract_repo_info query context), GetContents repo],
           clock_reads = 2\<rparr>)"
  using assms
  by (simp add: process_query_def process_query_try_def create_error_response_eq
      now_metadata_eq stamp_def fresh_def record_call_def listed_def)

lemma process_query_ranker_fails:
  assumes "truthy (extract_repo_info query context)"
    and "get_repo P (extract_repo_info query context) = Inr repo"
    and "get_contents P repo = Inr listing"
    and "filter_relevant_files P listing query = Inl e"
  shows "process_query P query context =
         ([ErrorItem e (stamp P (listed (extract_repo_info query context) repo))],
          \<lparr>calls = [GetRepo (extract_repo_info query context), GetContents repo],
           clock_reads = 2\<rparr>)"
  using assms
  by (simp add: process_query_def process_query_try_def create_error_response_eq
      now_metadata_eq stamp_def fresh_def record_call_def listed_def)

lemma process_query_try_loop:
  assumes "truthy (extract_repo_info query context)"
    and "get_repo P (extract_repo_info query context) = Inr repo"
    and "get_contents P repo = Inr listing"
    and "filter_relevant_files P listing query = Inr ranked"
  shows "process_query_try P query context fresh =
         append_file_items P (take 5 ranked) [repository_info_item repo (stamp P fresh)]
           (listed (extract_repo_info query context) repo)"
  using assms
  by (simp add: process_query_try_def now_metadata_eq stamp_def fresh_def record_call_def
      listed_def)

lemma process_query_loop_raises:
  assumes "truthy (extract_repo_info query context)"
    and "get_repo P (extract_repo_info query context) = Inr repo"
    and "get_contents P repo = Inr listing"
    and "filter_relevant_files P listing query = Inr ranked"
    and "append_file_items P (take 5 ranked) [repository_info_item repo (stamp P fresh)]
           (listed (extract_repo_info query context) repo) = (Inl e, w)"
  shows "process_query P query context = ([ErrorItem e (stamp P w)], after_skip w)"
  using assms(5)
  by (simp add: process_query_def process_query_try_loop [OF assms(1-4)]
      create_error_response_eq stamp_def after_skip_def)

lemma process_query_loop_returns:
  assumes "truthy (extract_repo_info query context)"
    and "get_repo P (extract_repo_info query context) = Inr repo"
    and "get_contents P repo = Inr listing"
    and "filter_relevant_files P listing query = Inr ranked"
    and "append_file_items P (take 5 ranked) [repository_info_item repo (stamp P fresh)]
           (listed (extract_repo_info query context) repo) = (Inr out, w)"
  shows "process_query P query context = (out, w)"
  using assms(5)
  by (simp add: process_query_def process_query_try_loop [OF assms(1-4)])

text \<open>Every resolution ends in one of six ways.\<close>

lemma process_query_cases:
  fixes P :: provider and query :: string and ctx :: "(string \<times> py_value) list option"
  obtains
    (no_identifier) "\<not> truthy (extract_repo_info query ctx)"
  | (get_repo_fails) e where "truthy (extract_repo_info query ctx)"
      "get_repo P (extract_repo_info query ctx) = Inl e"
  | (get_contents_fails) repo e where "truthy (extract_repo_info query ctx)"
      "get_repo P (extract_repo_info query ctx) = Inr repo"
      "get_contents P repo = Inl e"
  | (ranker_fails) repo listing e where "truthy (extract_repo_info query ctx)"
      "get_repo P (extract_repo_info query ctx) = Inr repo"
      "get_contents P repo = Inr listing"
      "filter_relevant_files P listing query = Inl e"
  | (loop_raises) repo listing ranked e w where "truthy (extract_repo_info query ctx)"
      "get_repo P (extract_repo_info query ctx) = Inr repo"
      "get_contents P repo = Inr listing"
      "filter_relevant_files P listing query = Inr ranked"
      "append_file_items P (take 5 ranked) [repository_info_item repo (stamp P fresh)]
           (listed (extract_repo_info query ctx) repo) = (Inl e, w)"
  | (loop_returns) repo listing ranked out w where "truthy (extract_repo_info query ctx)"
      "get_repo P (extract_repo_info query ctx) = Inr repo"
      "get_contents P repo = Inr listing"
      "filter_relevant_files P listing query = Inr ranked"
      "append_file_items P (take 5 ranked) [repository_info_item repo (stamp P fresh)]
           (listed (extract_repo_info query ctx) repo) = (Inr out, w)"
proof (cases "truthy (extract_repo_info query ctx)")
  case False
  then show ?thesis by (rule no_identifier)
next
  case t: True
  show ?thesis
  proof (cases "get_repo P (extract_repo_info query ctx)")
    case (Inl e)
    with t show ?thesis by (rule get_repo_fails)
  next
    case r: (Inr repo)
    show ?thesis
    proof (cases "get_contents P repo")
      case (Inl e)
      with t r show ?thesis by (rule get_contents_fails)
    next
      case l: (Inr listing)
      show ?thesis
      proof (cases "filter_relevant_files P listing query")
        case (Inl e)
        with t r l show ?thesis by (rule ranker_fails)
      next
        case f: (Inr ranked)
        obtain res w where a: "append_file_items P (take 5 ranked)
            [repository_info_item repo (stamp P fresh)]
            (listed (extract_repo_info query ctx) repo) = (res, w)"
          by (cases "append_file_items P (take 5 ranked)
            [repository_info_item repo (stamp P fresh)]
            (listed (extract_repo_info query ctx) repo)")
        show ?thesis
        proof (cases res)
          case (Inl e)
          with t r l f a show ?thesis by (auto intro: loop_raises)
        next
          case (Inr out)
          with t r l f a show ?thesis by (auto intro: loop_returns)
        qed
      qed
    qed
  qed
qed

subsection \<open>Small facts\<close>

lemma raised_None_iff:
  "raised P (DecodedContent f) = None \<longleftrightarrow> (\<exists>t. decoded_content P f = Inr t)"
  by (cases "decoded_content P f") auto

lemma context_value_wins:
  assumes "map_of d ''repository'' = Some v"
  shows "extract_repo_info query (Some d) = v"
proof -
  from assms have "d \<noteq> []" by auto
  with assms show ?thesis by (simp add: extract_repo_info_def)
qed

lemma list_all2_item_at:
  "list_all2 R fs items \<Longrightarrow> i < length fs \<Longrightarrow> R (fs ! i) ((x # items) ! Suc i)"
  by (simp add: list_all2_conv_all_nth)

subsection \<open>Scores of the ranker\<close>

lemma fold_count:
  "fold (\<lambda>term score. if p term then score + 1 else score) ts (a :: rat)
   = a + of_nat (length (filter p ts))"
  by (induction ts arbitrary: a) simp_all

lemma endswith_iff:
  "endswith s sufs \<longleftrightarrow> (\<exists>suf\<in>set sufs. \<exists>pre. s = pre @ suf)"
  by (simp add: endswith_def list_ex_iff suffix_def)

lemma score_file_eq:
  "score_file query_terms file =
     of_nat (length (filter (\<lambda>term. sublist term (lower (file_name file))) query_terms))
     + (if endswith (lower (file_name file)) bonus_suffixes then 1 / 2 else 0)"
  by (simp add: score_file_def Let_def fold_count)

lemma score_file_no_terms:
  "score_file [] file = (if endswith (lower (file_name file)) bonus_suffixes then 1 / 2 else 0)"
  by (simp add: score_file_eq)

lemma scored_files_no_terms:
  assumes "split (lower query) = []"
  shows "scored_files files query =
         map (Pair (1 / 2)) (filter (\<lambda>file. endswith (lower (file_name file)) bonus_suffixes) files)"
  using assms
  by (induction files) (simp_all add: scored_files_def score_file_no_terms)

subsection \<open>The sort of the ranker\<close>

lemma insert_pivot_set:
  "insert_pivot lt x ps = Inr qs \<Longrightarrow> set qs = insert x (set ps)"
proof (induction ps arbitrary: qs)
  case Nil
  then show ?case by auto
next
  case (Cons p ps)
  show ?case
  proof (cases "lt x p")
    case (Inl e)
    with Cons.prems show ?thesis by simp
  next
    case (Inr b)
    show ?thesis
    proof (cases b)
      case True
      with Inr Cons.prems show ?thesis by auto
    next
      case False
      show ?thesis
      proof (cases "insert_pivot lt x ps")
        case (Inl e)
        with Inr False Cons.prems show ?thesis by simp
      next
        case rest: (Inr qs')
        with Inr False Cons.prems have "qs = p # qs'" by simp
        with Cons.IH [OF rest] show ?thesis by auto
      qed
    qed
  qed
qed

lemma sort_into_set:
  "sort_into lt placed xs = Inr ys \<Longrightarrow> set ys = set placed \<union> set xs"
proof (induction xs arbitrary: placed)
  case Nil
  then show ?case by simp
next
  case (Cons x xs)
  from Cons.prems obtain placed' where i: "insert_pivot lt x placed = Inr placed'"
    and s: "sort_into lt placed' xs = Inr ys"
    by (auto split: sum.splits)
  from Cons.IH [OF s] insert_pivot_set [OF i] show ?case by auto
qed

lemma sorted_reverse_set:
  "sorted_reverse lt xs = Inr ys \<Longrightarrow> set ys = set xs"
  by (auto simp: sorted_reverse_def split: sum.splits dest: sort_into_set)

lemma sorted_reverse_Nil: "sorted_reverse lt [] = Inr []"
  by (simp add: sorted_reverse_def)

lemma filter_relevant_files_set:
  assumes "filter_relevant_files P files query = Inr ranked"
  shows "set ranked = snd ` set (scored_files files query)"
proof -
  from assms obtain pairs where p: "sorted_reverse (tuple_lt P) (scored_files files query) = Inr pairs"
    and r: "ranked = map snd pairs"
    by (auto simp: filter_relevant_files_def split: sum.splits)
  from sorted_reverse_set [OF p] r show ?thesis by simp
qed

lemma example_scored:
  "scored_files [readme_md, src_dir, license_txt] example_query
   = [(5 / 2, readme_md), (1 / 2, license_txt)]"
  by code_simp

subsection \<open>Equal scores between file objects without an ordering\<close>

lemma insert_pivot_Cons_no_ordering:
  assumes "\<forall>a b. file_lt P a b = Inl e"
  shows "insert_pivot (tuple_lt P) x (p # ps) =
          (if fst x < fst p then Inr (x # p # ps)
           else if fst x = fst p \<and> \<not> file_eq P (snd x) (snd p) then Inl e
           else (case insert_pivot (tuple_lt P) x ps of
                   Inl e' \<Rightarrow> Inl e'
                 | Inr qs \<Rightarrow> Inr (p # qs)))"
proof -
  have t: "tuple_lt P x p =
          (if fst x \<noteq> fst p then Inr (fst x < fst p)
           else if file_eq P (snd x) (snd p) then Inr False else Inl e)"
    using assms by (simp add: tuple_lt_def)
  show ?thesis
    unfolding insert_pivot.simps t by simp
qed

lemma insert_pivot_only_raises:
  assumes "\<forall>a b. file_lt P a b = Inl e"
  shows "insert_pivot (tuple_lt P) x ps = Inl e' \<Longrightarrow> e' = e"
proof (induction ps arbitrary: e')
  case Nil
  then show ?case by simp
next
  case (Cons p ps)
  show ?case
  proof (cases "insert_pivot (tuple_lt P) x ps")
    case (Inl e'')
    then have "e'' = e" by (rule Cons.IH)
    with Inl Cons.prems show ?thesis
      unfolding insert_pivot_Cons_no_ordering [OF assms] by (simp split: if_splits)
  next
    case (Inr qs)
    with Cons.prems show ?thesis
      unfolding insert_pivot_Cons_no_ordering [OF assms] by (simp split: if_splits)
  qed
qed

lemma insert_pivot_by_score:
  assumes "\<forall>a b. file_lt P a b = Inl e"
  shows "insert_pivot (tuple_lt P) x ps = Inr qs \<Longrightarrow> by_score ps \<Longrightarrow> by_score qs"
proof (induction ps arbitrary: qs)
  case Nil
  then show ?case by (auto simp: by_score_def)
next
  case (Cons p ps)
  show ?case
  proof (cases "fst x < fst p")
    case True
    with Cons.prems(1) have "qs = x # p # ps"
      unfolding insert_pivot_Cons_no_ordering [OF assms] by simp
    with True Cons.prems(2) show ?thesis
      by (auto simp: by_score_def)
  next
    case False
    show ?thesis
    proof (cases "insert_pivot (tuple_lt P) x ps")
      case (Inl e')
      with False Cons.prems(1) show ?thesis
        unfolding insert_pivot_Cons_no_ordering [OF assms] by (simp split: if_splits)
    next
      case (Inr qs')
      with False Cons.prems(1) have qs: "qs = p # qs'"
        unfolding insert_pivot_Cons_no_ordering [OF assms] by (simp split: if_splits)
      from Cons.prems(2) have "by_score ps" by (simp add: by_score_def)
      from Cons.IH [OF Inr this] have s: "by_score qs'" .
      from insert_pivot_set [OF Inr] have "set qs' = insert x (set ps)" .
      moreover from False have "fst p \<le> fst x" by simp
      ultimately show ?thesis
        using s Cons.prems(2) qs by (auto simp: by_score_def)
    qed
  qed
qed

lemma insert_pivot_clash:
  assumes "\<forall>a b. file_lt P a b = Inl e"
  shows "by_score ps \<Longrightarrow> p \<in> set ps \<Longrightarrow> fst x = fst p \<Longrightarrow> \<not> file_eq P (snd x) (snd p)
         \<Longrightarrow> insert_pivot (tuple_lt P) x ps = Inl e"
proof (induction ps)
  case Nil
  then show ?case by simp
next
  case (Cons q ps)
  show ?case
  proof (cases "q = p")
    case True
    with Cons.prems(3,4) show ?thesis
      unfolding insert_pivot_Cons_no_ordering [OF assms] by simp
  next
    case False
    with Cons.prems(2) have p: "p \<in> set ps" by simp
    from Cons.prems(1) have s: "by_score ps" by (simp add: by_score_def)
    from Cons.prems(1) p have "fst q \<le> fst p" by (auto simp: by_score_def)
    with Cons.prems(3) have "\<not> fst x < fst q" by simp
    with Cons.IH [OF s p Cons.prems(3,4)] show ?thesis
      unfolding insert_pivot_Cons_no_ordering [OF assms] by simp
  qed
qed

lemma sort_into_clash:
  assumes "\<forall>a b. file_lt P a b = Inl e"
  shows "by_score placed \<Longrightarrow> p \<in> set placed \<union> set ys \<Longrightarrow> fst x = fst p
         \<Longrightarrow> \<not> file_eq P (snd x) (snd p)
         \<Longrightarrow> sort_into (tuple_lt P) placed (ys @ x # zs) = Inl e"
proof (induction ys arbitrary: placed)
  case Nil
  then have "insert_pivot (tuple_lt P) x placed = Inl e"
    by (auto intro: insert_pivot_clash [OF assms])
  then show ?case by simp
next
  case (Cons y ys)
  show ?case
  proof (cases "insert_pivot (tuple_lt P) y placed")
    case (Inl e')
    with insert_pivot_only_raises [OF assms Inl] show ?thesis by simp
  next
    case (Inr placed')
    from insert_pivot_by_score [OF assms Inr Cons.prems(1)] have s: "by_score placed'" .
    from insert_pivot_set [OF Inr] Cons.prems(2) have "p \<in> set placed' \<union> set ys" by auto
    from Cons.IH [OF s this Cons.prems(3,4)] Inr show ?thesis by simp
  qed
qed

section \<open>The claims\<close>

lemma error_shape:
  assumes "process_query P query context = ([ErrorItem m md], w)"
  shows "map item_type (fst (process_query P query context)) = [''error'']
   \<or> (map item_type (fst (process_query P query context))
        = ''repository_info'' # replicate (length (fst (process_query P query context)) - 1) ''file_content''
      \<and> length (fst (process_query P query context)) - 1 \<le> 5)"
proof -
  from assms have "map item_type (fst (process_query P query context)) = [''error'']"
    by simp
  then show ?thesis ..
qed

text \<open>
  C1. Whatever the query, the context and the provider, the list that a resolution returns
  is either one item of type \<^verbatim>\<open>error\<close> and nothing else, or one item of type
  \<^verbatim>\<open>repository_info\<close> followed by items of type \<^verbatim>\<open>file_content\<close> only, at most
  five of them.
\<close>

theorem process_query_shape:
  "map item_type (fst (process_query P query context)) = [''error'']
   \<or> (map item_type (fst (process_query P query context))
        = ''repository_info'' # replicate (length (fst (process_query P query context)) - 1) ''file_content''
      \<and> length (fst (process_query P query context)) - 1 \<le> 5)"
proof (cases rule: process_query_cases [where P = P and query = query and ctx = "context"])
  case no_identifier
  from process_query_no_identifier [OF no_identifier] show ?thesis
    by (rule error_shape)
next
  case (get_repo_fails e)
  from process_query_get_repo_fails [OF get_repo_fails] show ?thesis
    by (rule error_shape)
next
  case (get_contents_fails repo e)
  from process_query_get_contents_fails [OF get_contents_fails] show ?thesis
    by (rule error_shape)
next
  case (ranker_fails repo listing e)
  from process_query_ranker_fails [OF ranker_fails] show ?thesis
    by (rule error_shape)
next
  case (loop_raises repo listing ranked e w)
  from process_query_loop_raises [OF loop_raises] show ?thesis
    by (rule error_shape)
next
  case (loop_returns repo listing ranked out w)
  have out: "fst (process_query P query context) = out"
    by (simp add: process_query_loop_returns [OF loop_returns])
  from append_file_items_types [OF loop_returns(5)]
  have types: "map item_type out = ''repository_info'' # replicate (length (take 5 ranked)) ''file_content''"
    by (simp add: repository_info_item_def)
  from arg_cong [OF types, of length]
  have len: "length out - 1 = length (take 5 ranked)"
    by simp
  have "length (take 5 ranked) \<le> 5" by simp
  with types len show ?thesis
    unfolding out by simp
qed


theorem process_query_shape_witness:
  "map item_type (fst (process_query octocat example_query None))
     = [''repository_info'', ''file_content'', ''file_content'']
   \<and> (map item_type (fst (process_query octocat example_query None)) = [''error'']
      \<or> (map item_type (fst (process_query octocat example_query None))
           = ''repository_info''
               # replicate (length (fst (process_query octocat example_query None)) - 1) ''file_content''
         \<and> length (fst (process_query octocat example_query None)) - 1 \<le> 5))"
proof -
  have "map item_type (fst (process_query octocat example_query None))
     = [''repository_info'', ''file_content'', ''file_content'']"
    by code_simp
  then show ?thesis
    using process_query_shape [of octocat example_query None] by (rule conjI)
qed

text \<open>
  C2. If a call to the provider that the resolution made raised (the fetch of the
  repository, of its listing, or of a file's decoded content), the resolution returns
  exactly one item, of type \<^verbatim>\<open>error\<close>, whose content is the text of that
  exception; no item built before it is returned. In particular, when the fetch of the
  repository raises with the text \<^verbatim>\<open>404 Not Found\<close>, the result is the one error item
  with that content.
\<close>

theorem provider_failure_single_error:
  "(c \<in> set (calls (snd (process_query P query context))) \<and> raised P c = Some m
      \<longrightarrow> map error_content (fst (process_query P query context)) = [Some m])
   \<and> (truthy (extract_repo_info query context)
        \<and> get_repo P (extract_repo_info query context) = Inl ''404 Not Found''
      \<longrightarrow> fst (process_query P query context)
            = [ErrorItem ''404 Not Found'' \<lparr>source = ''github'', timestamp = utcnow P 0\<rparr>])"
proof (rule conjI)
  show "truthy (extract_repo_info query context)
        \<and> get_repo P (extract_repo_info query context) = Inl ''404 Not Found''
      \<longrightarrow> fst (process_query P query context)
            = [ErrorItem ''404 Not Found'' \<lparr>source = ''github'', timestamp = utcnow P 0\<rparr>]"
  proof
    assume h: "truthy (extract_repo_info query context)
        \<and> get_repo P (extract_repo_info query context) = Inl ''404 Not Found''"
    then have "process_query P query context =
         ([ErrorItem ''404 Not Found'' (stamp P fresh)],
          \<lparr>calls = [GetRepo (extract_repo_info query context)], clock_reads = 1\<rparr>)"
      by (intro process_query_get_repo_fails) simp_all
    then show "fst (process_query P query context)
            = [ErrorItem ''404 Not Found'' \<lparr>source = ''github'', timestamp = utcnow P 0\<rparr>]"
      by (simp add: stamp_def fresh_def)
  qed
next
  show "c \<in> set (calls (snd (process_query P query context))) \<and> raised P c = Some m
      \<longrightarrow> map error_content (fst (process_query P query context)) = [Some m]"
  proof
    assume h: "c \<in> set (calls (snd (process_query P query context))) \<and> raised P c = Some m"
    then have c: "c \<in> set (calls (snd (process_query P query context)))"
      and m: "raised P c = Some m" by simp_all
    show "map error_content (fst (process_query P query context)) = [Some m]"
    proof (cases rule: process_query_cases [where P = P and query = query and ctx = "context"])
      case no_identifier
      from c show ?thesis
        by (simp add: process_query_no_identifier [OF no_identifier])
    next
      case (get_repo_fails e)
      from c have "c = GetRepo (extract_repo_info query context)"
        by (simp add: process_query_get_repo_fails [OF get_repo_fails])
      with m get_repo_fails(2) have "e = m" by simp
      then show ?thesis
        by (simp add: process_query_get_repo_fails [OF get_repo_fails])
    next
      case (get_contents_fails repo e)
      from c have "c = GetRepo (extract_repo_info query context) \<or> c = GetContents repo"
        by (simp add: process_query_get_contents_fails [OF get_contents_fails])
      with m get_contents_fails(2,3) have "e = m" by auto
      then show ?thesis
        by (simp add: process_query_get_contents_fails [OF get_contents_fails])
    next
      case (ranker_fails repo listing e)
      from c have "c = GetRepo (extract_repo_info query context) \<or> c = GetContents repo"
        by (simp add: process_query_ranker_fails [OF ranker_fails])
      with m ranker_fails(2,3) show ?thesis by auto
    next
      case (loop_raises repo listing ranked e w)
      from loop_raises(2,3)
      have start: "\<forall>c\<in>set (calls (listed (extract_repo_info query context) repo)). raised P c = None"
        by (simp add: listed_def)
      from c have "c \<in> set (calls w)"
        by (simp add: process_query_loop_raises [OF loop_raises] calls_after_skip)
      from append_file_items_raised [OF start loop_raises(5) this m] have "e = m" by simp
      then show ?thesis
        by (simp add: process_query_loop_raises [OF loop_raises])
    next
      case (loop_returns repo listing ranked out w)
      from loop_returns(2,3)
      have start: "\<forall>c\<in>set (calls (listed (extract_repo_info query context) repo)). raised P c = None"
        by (simp add: listed_def)
      from c have "c \<in> set (calls w)"
        by (simp add: process_query_loop_returns [OF loop_returns])
      from append_file_items_raised [OF start loop_returns(5) this m] show ?thesis by simp
    qed
  qed
qed

theorem provider_failure_single_error_witness:
  "(GetRepo (PyStr ''nosuch/repo'') \<in> set (calls (snd (process_query octocat ''show nosuch/repo'' None)))
    \<and> raised octocat (GetRepo (PyStr ''nosuch/repo'')) = Some ''404 Not Found'')
   \<and> map error_content (fst (process_query octocat ''show nosuch/repo'' None)) = [Some ''404 Not Found'']
   \<and> (truthy (extract_repo_info ''show nosuch/repo'' None)
      \<and> get_repo octocat (extract_repo_info ''show nosuch/repo'' None) = Inl ''404 Not Found'')
   \<and> fst (process_query octocat ''show nosuch/repo'' None)
       = [ErrorItem ''404 Not Found'' \<lparr>source = ''github'', timestamp = utcnow octocat 0\<rparr>]"
proof -
  note T = provider_failure_single_error
    [of "GetRepo (PyStr ''nosuch/repo'')" octocat "''show nosuch/repo''" None "''404 Not Found''"]
  have h1: "GetRepo (PyStr ''nosuch/repo'') \<in> set (calls (snd (process_query octocat ''show nosuch/repo'' None)))
    \<and> raised octocat (GetRepo (PyStr ''nosuch/repo'')) = Some ''404 Not Found''"
    by code_simp
  have h2: "truthy (extract_repo_info ''show nosuch/repo'' None)
      \<and> get_repo octocat (extract_repo_info ''show nosuch/repo'' None) = Inl ''404 Not Found''"
    by code_simp
  show ?thesis
    by (rule conjI [OF h1 conjI [OF T [THEN conjunct1, THEN mp, OF h1]
          conjI [OF h2 T [THEN conjunct2, THEN mp, OF h2]]]])
qed

text \<open>
  C3. When the extractor derives no identifier from the query and the context, the
  resolution returns exactly one item of type \<^verbatim>\<open>error\<close> with the message
  \<^verbatim>\<open>No repository information found in query\<close>, and the provider has not been called.
\<close>

theorem no_identifier_single_error:
  assumes "extract_repo_info query context = PyNone"
  shows "process_query P query context =
         ([ErrorItem ''No repository information found in query''
             \<lparr>source = ''github'', timestamp = utcnow P 0\<rparr>],
          \<lparr>calls = [], clock_reads = 1\<rparr>)"
proof -
  from assms have "\<not> truthy (extract_repo_info query context)" by simp
  from process_query_no_identifier [OF this] show ?thesis
    by (simp add: stamp_def fresh_def)
qed

theorem no_identifier_single_error_witness:
  "extract_repo_info ''hello world'' None = PyNone
   \<and> process_query octocat ''hello world'' None =
         ([ErrorItem ''No repository information found in query''
             \<lparr>source = ''github'', timestamp = utcnow octocat 0\<rparr>],
          \<lparr>calls = [], clock_reads = 1\<rparr>)"
proof -
  have h: "extract_repo_info ''hello world'' None = PyNone" by code_simp
  from h no_identifier_single_error [OF h, of octocat] show ?thesis by (rule conjI)
qed

text \<open>
  C9. When the context dictionary holds the key \<^verbatim>\<open>repository\<close>, the extractor returns
  the value stored there unchanged, whatever the value and whatever the query text.
\<close>

theorem context_repository_verbatim:
  assumes "map_of d ''repository'' = Some v"
  shows "extract_repo_info query (Some d) = v"
  using assms by (rule context_value_wins)

theorem context_repository_verbatim_witness:
  "map_of [(''repository'', PyInt 7)] ''repository'' = Some (PyInt 7)
   \<and> extract_repo_info ''see octocat/Hello-World'' (Some [(''repository'', PyInt 7)]) = PyInt 7"
proof -
  have h: "map_of [(''repository'', PyInt 7)] ''repository'' = Some (PyInt 7)" by simp
  from h context_repository_verbatim [OF h, of "''see octocat/Hello-World''"]
  show ?thesis by (rule conjI)
qed

text \<open>
  C10. When the context maps \<^verbatim>\<open>repository\<close> to a falsy value such as the empty string
  or \<^verbatim>\<open>None\<close>, the extractor returns that value, and the resolution returns the single
  error item with the message \<^verbatim>\<open>No repository information found in query\<close> without
  calling the provider.
\<close>

theorem falsy_context_identifier:
  assumes "map_of d ''repository'' = Some v" and "\<not> truthy v"
  shows "extract_repo_info query (Some d) = v
       \<and> process_query P query (Some d) =
           ([ErrorItem ''No repository information found in query''
               \<lparr>source = ''github'', timestamp = utcnow P 0\<rparr>],
            \<lparr>calls = [], clock_reads = 1\<rparr>)"
proof -
  from assms(1) have v: "extract_repo_info query (Some d) = v" by (rule context_value_wins)
  with assms(2) have "\<not> truthy (extract_repo_info query (Some d))" by simp
  from process_query_no_identifier [OF this] v show ?thesis
    by (simp add: stamp_def fresh_def)
qed

theorem falsy_context_identifier_witness:
  "(map_of [(''repository'', PyStr [])] ''repository'' = Some (PyStr []) \<and> \<not> truthy (PyStr []))
   \<and> extract_repo_info example_query (Some [(''repository'', PyStr [])]) = PyStr []
   \<and> process_query octocat example_query (Some [(''repository'', PyStr [])]) =
           ([ErrorItem ''No repository information found in query''
               \<lparr>source = ''github'', timestamp = utcnow octocat 0\<rparr>],
            \<lparr>calls = [], clock_reads = 1\<rparr>)"
proof -
  have h1: "map_of [(''repository'', PyStr [])] ''repository'' = Some (PyStr [])" by simp
  have h2: "\<not> truthy (PyStr [])" by simp
  from conjI [OF h1 h2] falsy_context_identifier [OF h1 h2, of example_query octocat]
  show ?thesis by (rule conjI)
qed

text \<open>
  C7, as the code has it. Let a file be among the first five of the ranked list. If its
  size is 100000 or more, its decoded content is never asked for; if its size is 99999 or
  less and no smaller file before it in the selection failed to decode, its decoded
  content is asked for; and when the resolution returns file items, the item at the
  file's position carries the file's name, path and URL, with the literal content
  \<^verbatim>\<open>File too large\<close> for a size of 100000 or more and the decoded text otherwise.
\<close>

theorem size_guard:
  assumes "truthy (extract_repo_info query context)"
    and "get_repo P (extract_repo_info query context) = Inr repo"
    and "get_contents P repo = Inr listing"
    and "filter_relevant_files P listing query = Inr ranked"
    and "i < length (take 5 ranked)"
  shows "(100000 \<le> file_size (take 5 ranked ! i) \<longrightarrow>
            DecodedContent (take 5 ranked ! i) \<notin> set (calls (snd (process_query P query context))))
       \<and> (file_size (take 5 ranked ! i) \<le> 99999
          \<and> (\<forall>j<i. file_size (take 5 ranked ! j) \<le> 99999
                 \<longrightarrow> raised P (DecodedContent (take 5 ranked ! j)) = None) \<longrightarrow>
            DecodedContent (take 5 ranked ! i) \<in> set (calls (snd (process_query P query context))))
       \<and> (map item_type (fst (process_query P query context)) \<noteq> [''error''] \<longrightarrow>
            item_of P (take 5 ranked ! i) (fst (process_query P query context) ! Suc i))"
proof -
  let ?top = "take 5 ranked"
  let ?w0 = "listed (extract_repo_info query context) repo"
  let ?info = "repository_info_item repo (stamp P fresh)"
  obtain r w where a: "append_file_items P ?top [?info] ?w0 = (r, w)"
    by (cases "append_file_items P ?top [?info] ?w0")
  have calls: "set (calls (snd (process_query P query context))) = set (calls w)"
  proof (cases r)
    case (Inl e)
    with a have "append_file_items P ?top [?info] ?w0 = (Inl e, w)" by simp
    from process_query_loop_raises [OF assms(1-4) this] show ?thesis
      by (simp add: calls_after_skip)
  next
    case (Inr out)
    with a have "append_file_items P ?top [?info] ?w0 = (Inr out, w)" by simp
    from process_query_loop_returns [OF assms(1-4) this] show ?thesis by simp
  qed
  have large: "100000 \<le> file_size (?top ! i) \<longrightarrow> DecodedContent (?top ! i) \<notin> set (calls w)"
  proof
    assume big: "100000 \<le> file_size (?top ! i)"
    show "DecodedContent (?top ! i) \<notin> set (calls w)"
    proof
      assume "DecodedContent (?top ! i) \<in> set (calls w)"
      from append_file_items_fetched [OF a this] big show False
        by (auto simp: listed_def)
    qed
  qed
  have small: "file_size (?top ! i) \<le> 99999
          \<and> (\<forall>j<i. file_size (?top ! j) \<le> 99999 \<longrightarrow> raised P (DecodedContent (?top ! j)) = None)
      \<longrightarrow> DecodedContent (?top ! i) \<in> set (calls w)"
  proof
    assume h: "file_size (?top ! i) \<le> 99999
          \<and> (\<forall>j<i. file_size (?top ! j) \<le> 99999 \<longrightarrow> raised P (DecodedContent (?top ! j)) = None)"
    then have s: "file_size (?top ! i) < 100000" by simp
    have "\<forall>j<i. file_size (?top ! j) < 100000 \<longrightarrow> (\<exists>t. decoded_content P (?top ! j) = Inr t)"
    proof (intro allI impI)
      fix j
      assume "j < i" and "file_size (?top ! j) < 100000"
      with h have "raised P (DecodedContent (?top ! j)) = None" by simp
      then show "\<exists>t. decoded_content P (?top ! j) = Inr t"
        by (simp only: raised_None_iff)
    qed
    from append_file_items_attempted [OF a assms(5) s this]
    show "DecodedContent (?top ! i) \<in> set (calls w)" .
  qed
  have item: "map item_type (fst (process_query P query context)) \<noteq> [''error''] \<longrightarrow>
            item_of P (?top ! i) (fst (process_query P query context) ! Suc i)"
  proof (cases r)
    case (Inl e)
    with a have "append_file_items P ?top [?info] ?w0 = (Inl e, w)" by simp
    from process_query_loop_raises [OF assms(1-4) this] show ?thesis by simp
  next
    case (Inr out)
    with a have ok: "append_file_items P ?top [?info] ?w0 = (Inr out, w)" by simp
    from append_file_items_items [OF ok] obtain items where
      out: "out = [?info] @ items" and all: "list_all2 (item_of P) ?top items" by blast
    from list_all2_item_at [OF all assms(5)] out
    have "item_of P (?top ! i) (out ! Suc i)" by simp
    with process_query_loop_returns [OF assms(1-4) ok] show ?thesis by simp
  qed
  from large small item show ?thesis
    unfolding calls by (intro conjI)
qed

theorem size_guard_witness:
  "(100000 \<le> file_size license_txt
    \<and> DecodedContent license_txt \<notin> set (calls (snd (process_query octocat example_query None)))
    \<and> item_of octocat license_txt (fst (process_query octocat example_query None) ! Suc 1))
   \<and> (file_size readme_md \<le> 99999
    \<and> DecodedContent readme_md \<in> set (calls (snd (process_query octocat example_query None)))
    \<and> item_of octocat readme_md (fst (process_query octocat example_query None) ! Suc 0))"
proof -
  have h1: "truthy (extract_repo_info example_query None)" by code_simp
  have h2: "get_repo octocat (extract_repo_info example_query None) = Inr hello_world"
    by code_simp
  have h3: "get_contents octocat hello_world = Inr [readme_md, src_dir, license_txt]"
    by (simp add: octocat_def)
  have h4: "filter_relevant_files octocat [readme_md, src_dir, license_txt] example_query
            = Inr [readme_md, license_txt]"
    by code_simp
  have n1: "1 < length (take 5 [readme_md, license_txt])" by simp
  have n0: "0 < length (take 5 [readme_md, license_txt])" by simp
  have e1: "take 5 [readme_md, license_txt] ! 1 = license_txt" by simp
  have e0: "take 5 [readme_md, license_txt] ! 0 = readme_md" by simp
  have ne: "map item_type (fst (process_query octocat example_query None)) \<noteq> [''error'']"
    by code_simp
  have big: "100000 \<le> file_size license_txt" by (simp add: license_txt_def)
  have small: "file_size readme_md \<le> 99999" by (simp add: readme_md_def)
  note T1 = size_guard [OF h1 h2 h3 h4 n1]
  note T0 = size_guard [OF h1 h2 h3 h4 n0]
  from T1 big ne have p1: "100000 \<le> file_size license_txt
    \<and> DecodedContent license_txt \<notin> set (calls (snd (process_query octocat example_query None)))
    \<and> item_of octocat license_txt (fst (process_query octocat example_query None) ! Suc 1)"
    unfolding e1 by simp
  from T0 small ne have p0: "file_size readme_md \<le> 99999
    \<and> DecodedContent readme_md \<in> set (calls (snd (process_query octocat example_query None)))
    \<and> item_of octocat readme_md (fst (process_query octocat example_query None) ! Suc 0)"
    unfolding e0 by simp
  from p1 p0 show ?thesis by (rule conjI)
qed

text \<open>
  The claim C7 without the condition on the earlier files does not hold: when the first
  selected file fails to decode, the resolution ends there, and the second selected file,
  of size 99999, is never fetched.
\<close>

theorem size_guard_counterexample:
  "truthy (extract_repo_info example_query None)
   \<and> get_repo undecodable (extract_repo_info example_query None) = Inr hello_world
   \<and> get_contents undecodable hello_world = Inr [readme_md, src_dir, changelog_md]
   \<and> filter_relevant_files undecodable [readme_md, src_dir, changelog_md] example_query
       = Inr [readme_md, changelog_md]
   \<and> changelog_md \<in> set (take 5 [readme_md, changelog_md])
   \<and> file_size changelog_md \<le> 99999
   \<and> DecodedContent changelog_md \<notin> set (calls (snd (process_query undecodable example_query None)))"
  by code_simp

text \<open>
  C4, as the code has it. For the query \<^verbatim>\<open>Show me README in octocat/Hello-World\<close> with
  no context the extractor returns \<^verbatim>\<open>octocat/Hello-World\<close>. For the entries
  \<^verbatim>\<open>README.md\<close>, \<^verbatim>\<open>src\<close> and \<^verbatim>\<open>LICENSE.txt\<close> the ranker scores
  \<^verbatim>\<open>README.md\<close> at 2.5 (the terms \<^verbatim>\<open>me\<close> and \<^verbatim>\<open>readme\<close> both occur in
  \<^verbatim>\<open>readme.md\<close>, plus the suffix bonus), \<^verbatim>\<open>LICENSE.txt\<close> at 0.5 (the suffix bonus
  alone) and \<^verbatim>\<open>src\<close> at 0, and returns \<^verbatim>\<open>README.md\<close> followed by
  \<^verbatim>\<open>LICENSE.txt\<close>, whatever the provider's comparison of file objects.
\<close>

theorem readme_example:
  "extract_repo_info example_query None = PyStr ''octocat/Hello-World''
   \<and> score_file (split (lower example_query)) readme_md = 5 / 2
   \<and> score_file (split (lower example_query)) license_txt = 1 / 2
   \<and> score_file (split (lower example_query)) src_dir = 0
   \<and> filter_relevant_files P [readme_md, src_dir, license_txt] example_query
       = Inr [readme_md, license_txt]"
proof -
  have a: "extract_repo_info example_query None = PyStr ''octocat/Hello-World''"
    by code_simp
  have b: "score_file (split (lower example_query)) readme_md = 5 / 2" by code_simp
  have c: "score_file (split (lower example_query)) license_txt = 1 / 2" by code_simp
  have d: "score_file (split (lower example_query)) src_dir = 0" by code_simp
  have e: "filter_relevant_files P [readme_md, src_dir, license_txt] example_query
       = Inr [readme_md, license_txt]"
    by (simp add: filter_relevant_files_def example_scored sorted_reverse_def tuple_lt_def)
  from a b c d e show ?thesis by (intro conjI)
qed

theorem readme_example_witness:
  "filter_relevant_files octocat [readme_md, src_dir, license_txt] example_query
       = Inr [readme_md, license_txt]"
  using readme_example [of octocat] by (elim conjE)

text \<open>
  The claim C4 as stated (score 1.5 for \<^verbatim>\<open>README.md\<close>, score 0 for
  \<^verbatim>\<open>LICENSE.txt\<close>, result \<^verbatim>\<open>README.md\<close> alone) does not hold.
\<close>

theorem readme_example_counterexample:
  "\<not> (extract_repo_info example_query None = PyStr ''octocat/Hello-World''
      \<and> score_file (split (lower example_query)) readme_md = 3 / 2
      \<and> score_file (split (lower example_query)) license_txt = 0
      \<and> score_file (split (lower example_query)) src_dir = 0
      \<and> filter_relevant_files octocat [readme_md, src_dir, license_txt] example_query
          = Inr [readme_md])"
  by code_simp

text \<open>
  C5, as the code has it. When the query has no terms, every entry scores 0.5 if its
  lower-cased name ends in one of the bonus suffixes and 0 otherwise: the list of scored
  entries is exactly the entries with such a name, in their order. So a ranked list
  that is returned holds exactly these entries, and the result is the empty list when no
  entry has such a name.
\<close>

theorem no_terms_ranking:
  assumes "split (lower query) = []"
  shows "scored_files files query =
           map (Pair (1 / 2)) (filter (\<lambda>file. endswith (lower (file_name file)) bonus_suffixes) files)
       \<and> (filter_relevant_files P files query = Inr ranked \<longrightarrow>
            set ranked = {file \<in> set files. endswith (lower (file_name file)) bonus_suffixes})
       \<and> (filter (\<lambda>file. endswith (lower (file_name file)) bonus_suffixes) files = [] \<longrightarrow>
            filter_relevant_files P files query = Inr [])"
proof (intro conjI impI)
  show s: "scored_files files query =
           map (Pair (1 / 2)) (filter (\<lambda>file. endswith (lower (file_name file)) bonus_suffixes) files)"
    using assms by (rule scored_files_no_terms)
  {
    assume "filter_relevant_files P files query = Inr ranked"
    from filter_relevant_files_set [OF this] s
    show "set ranked = {file \<in> set files. endswith (lower (file_name file)) bonus_suffixes}"
      by (auto simp: image_iff)
  }
  {
    assume "filter (\<lambda>file. endswith (lower (file_name file)) bonus_suffixes) files = []"
    with s have "scored_files files query = []" by simp
    then show "filter_relevant_files P files query = Inr []"
      by (simp add: filter_relevant_files_def sorted_reverse_Nil)
  }
qed

theorem no_terms_ranking_witness:
  "split (lower ''  '') = []
   \<and> scored_files [readme_md, src_dir] ''  '' = [(1 / 2, readme_md)]
   \<and> filter_relevant_files octocat [readme_md, src_dir] ''  '' = Inr [readme_md]
   \<and> set [readme_md] = {file \<in> set [readme_md, src_dir]. endswith (lower (file_name file)) bonus_suffixes}
   \<and> filter_relevant_files octocat [src_dir] ''  '' = Inr []"
proof -
  have h: "split (lower ''  '') = []" by code_simp
  have r: "filter_relevant_files octocat [readme_md, src_dir] ''  '' = Inr [readme_md]"
    by code_simp
  have f1: "filter (\<lambda>file. endswith (lower (file_name file)) bonus_suffixes) [readme_md, src_dir]
            = [readme_md]"
    by code_simp
  have f2: "filter (\<lambda>file. endswith (lower (file_name file)) bonus_suffixes) [src_dir] = []"
    by code_simp
  note T1 = no_terms_ranking [OF h, of "[readme_md, src_dir]" octocat "[readme_md]"]
  note T2 = no_terms_ranking [OF h, of "[src_dir]" octocat "[]"]
  from T1 f1 have s: "scored_files [readme_md, src_dir] ''  '' = [(1 / 2, readme_md)]"
    by simp
  from T1 r have st: "set [readme_md] = {file \<in> set [readme_md, src_dir]. endswith (lower (file_name file)) bonus_suffixes}"
    by (elim conjE) (erule mp)
  from T2 f2 have e: "filter_relevant_files octocat [src_dir] ''  '' = Inr []"
    by (elim conjE) (erule mp)
  from h s r st e show ?thesis by (intro conjI)
qed

text \<open>
  The claim C5 as stated does not hold: with a query of two spaces, which has no terms,
  the entry \<^verbatim>\<open>README.md\<close> is kept.
\<close>

theorem no_terms_ranking_counterexample:
  "split (lower ''  '') = []
   \<and> endswith (file_name readme_md) bonus_suffixes
   \<and> filter_relevant_files octocat [readme_md] ''  '' = Inr [readme_md]"
  by code_simp

text \<open>
  C6, as the code has it. The score of an entry is the number of query terms that occur
  in its lower-cased name, plus one half exactly when the lower-cased name ends with one
  of the suffixes \<^verbatim>\<open>.md\<close>, \<^verbatim>\<open>.txt\<close>, \<^verbatim>\<open>.py\<close>, \<^verbatim>\<open>.js\<close>, \<^verbatim>\<open>.java\<close>. The
  test is made on the lower-cased name, so it does not depend on the case of the name.
\<close>

theorem bonus_on_lowercased_name:
  "score_file query_terms file =
     of_nat (length (filter (\<lambda>term. sublist term (lower (file_name file))) query_terms))
     + (if \<exists>suf\<in>set bonus_suffixes. \<exists>pre. lower (file_name file) = pre @ suf
        then 1 / 2 else 0)"
  by (simp only: score_file_eq endswith_iff)

theorem bonus_on_lowercased_name_witness:
  "lower (file_name readme_upper) = ''readme'' @ ''.md''
   \<and> score_file [''readme'', ''src''] readme_upper = 1 + 1 / 2"
proof -
  have l: "lower (file_name readme_upper) = ''readme'' @ ''.md''" by code_simp
  have m: "''.md'' \<in> set bonus_suffixes" by (simp add: bonus_suffixes_def)
  from l have "\<exists>pre. lower (file_name readme_upper) = pre @ ''.md''"
    by (rule exI [of _ "''readme''"])
  with m have ex: "\<exists>suf\<in>set bonus_suffixes. \<exists>pre. lower (file_name readme_upper) = pre @ suf"
    by (rule bexI [rotated])
  have c: "length (filter (\<lambda>term. sublist term (lower (file_name readme_upper))) [''readme'', ''src'']) = 1"
    by code_simp
  from bonus_on_lowercased_name [of "[''readme'', ''src'']" readme_upper] ex c
  have "score_file [''readme'', ''src''] readme_upper = 1 + 1 / 2"
    by (simp only: if_True of_nat_1)
  with l show ?thesis by (rule conjI)
qed

text \<open>
  The claim C6 as stated does not hold: the name \<^verbatim>\<open>README.MD\<close> ends with none of the
  suffixes as written, and the entry receives the bonus.
\<close>

theorem bonus_on_lowercased_name_counterexample:
  "\<not> endswith (file_name readme_upper) bonus_suffixes
   \<and> score_file [] readme_upper = 1 / 2"
  by code_simp

text \<open>
  C8 says that entries with equal scores keep their input order. The code sorts the pairs
  of score and file, so equal scores make it compare the file objects. With the files
  \<^verbatim>\<open>README.md\<close> and \<^verbatim>\<open>LICENSE.txt\<close> and the query
  \<^verbatim>\<open>docs octocat/Hello-World\<close> both score 0.5; file objects without an ordering make
  the ranker raise, and the resolution returns the single error item with the text of
  that exception instead of a ranked list.
\<close>

theorem tied_scores_raise:
  "scored_files [readme_md, src_dir, license_txt] ''docs octocat/Hello-World''
     = [(1 / 2, readme_md), (1 / 2, license_txt)]
   \<and> filter_relevant_files octocat [readme_md, src_dir, license_txt] ''docs octocat/Hello-World''
       = Inl no_ordering
   \<and> fst (process_query octocat ''docs octocat/Hello-World'' None)
       = [ErrorItem no_ordering \<lparr>source = ''github'', timestamp = utcnow octocat 1\<rparr>]"
  by code_simp

text \<open>
  This is not particular to the example. When the file objects have no ordering, the
  ranker raises whenever two of the scored files have the same score and are not equal
  objects.
\<close>

lemma equal_scores_raise:
  assumes "\<forall>a b. file_lt P a b = Inl e"
    and "scored_files files query = us @ (s, f) # vs @ (s, g) # ws"
    and "\<not> file_eq P f g"
  shows "filter_relevant_files P files query = Inl e"
proof -
  have "rev (scored_files files query) = (rev ws @ (s, g) # rev vs) @ (s, f) # rev us"
    by (simp add: assms(2))
  moreover have "sort_into (tuple_lt P) [] ((rev ws @ (s, g) # rev vs) @ (s, f) # rev us) = Inl e"
    by (rule sort_into_clash [OF assms(1), where p = "(s, g)"])
       (simp_all add: by_score_def assms(3))
  ultimately show ?thesis
    by (simp add: filter_relevant_files_def sorted_reverse_def)
qed

text \<open>
  With file objects that do have an ordering the same input is returned in the order of
  the objects, largest first, and not in the input order.
\<close>

lemma tied_scores_ordered_files:
  "filter_relevant_files ordered_by_size [readme_md, src_dir, license_txt] ''docs octocat/Hello-World''
       = Inr [license_txt, readme_md]"
  by code_simp

end
